theory Spec2Isabelle
  imports Main "HOL-Library.Word"
begin

section \<open>Errors raised by the library and by user code\<close>

text \<open>
  Every exception of the sources is a value. \<open>Exn m\<close> is an exception thrown by a user
  callable whose \<open>what()\<close> is \<open>m\<close>; \<open>Future_error c\<close> is \<open>std::future_error\<close> with
  code \<open>c\<close>; \<open>System_error\<close> is the \<open>std::system_error\<close> that the constructor of
  \<open>std::thread\<close> throws when no thread can be started; \<open>Out_of_range m\<close> is
  \<open>std::out_of_range\<close>.
\<close>

datatype future_errc = Broken_promise | Promise_already_satisfied | No_state

datatype error =
    Exn string
  | Future_error future_errc
  | System_error
  | Out_of_range string

section \<open>array.hpp: the fixed-size array\<close>

text \<open>
  \<open>Array<T, N>\<close> holds \<open>T elems[N]\<close>. The template parameter \<open>N\<close> is the first
  argument of every operation; an array is well formed when \<open>elems\<close> has \<open>N\<close> entries.
  \<open>size_type\<close> is unsigned and the operations only compare it, so indices are \<open>nat\<close>.
  A \<open>reference\<close> to an element is the position it designates.
\<close>

record 'a Array =
  elems :: "'a list"

datatype reference = Elem_ref nat

text \<open>Reading through a reference; \<open>None\<close> is a read outside \<open>elems\<close> (undefined behaviour).\<close>

definition deref :: "'a Array \<Rightarrow> reference \<Rightarrow> 'a option" where
  "deref a r = (case r of Elem_ref k \<Rightarrow>
     if k < length (elems a) then Some (elems a ! k) else None)"

definition boundscheck :: "nat \<Rightarrow> nat \<Rightarrow> error + unit" where
  "boundscheck N i =
     (if i \<ge> N then Inl (Out_of_range ''Array<>: index out of range'') else Inr ())"

text \<open>\<open>at\<close>: the check, then \<open>elems[i]\<close>. The array is returned as the call leaves it.\<close>

definition Array_at :: "nat \<Rightarrow> 'a Array \<Rightarrow> nat \<Rightarrow> (error + reference) \<times> 'a Array" where
  "Array_at N a i =
     (case boundscheck N i of
        Inl e \<Rightarrow> (Inl e, a)
      | Inr _ \<Rightarrow> (Inr (Elem_ref i), a))"

text \<open>\<open>operator[]\<close>: \<open>elems[index]\<close> and nothing else; it has no error result.\<close>

definition Array_subscript :: "nat \<Rightarrow> 'a Array \<Rightarrow> nat \<Rightarrow> reference \<times> 'a Array" where
  "Array_subscript N a index = (Elem_ref index, a)"

section \<open>The standard library's shared state, promise and future\<close>

text \<open>
  The shared state behind a \<open>std::promise<R>\<close> and its futures: not ready, ready with a
  value, ready with no value (\<open>R = void\<close>), or ready with an exception.
\<close>

datatype 'r slot = Pending | Resolved 'r | Resolved_void | Failed error

fun terminal :: "'r slot \<Rightarrow> bool" where
  "terminal Pending = False"
| "terminal (Resolved v) = True"
| "terminal Resolved_void = True"
| "terminal (Failed e) = True"

text \<open>
  \<open>promise::set_value\<close> and \<open>promise::set_exception\<close> store the outcome and make the
  state ready; on a state that is already ready they throw
  \<open>future_error(promise_already_satisfied)\<close> and leave it as it is.
\<close>

fun promise_set_value :: "'r \<Rightarrow> 'r slot \<Rightarrow> error + 'r slot" where
  "promise_set_value v Pending = Inr (Resolved v)"
| "promise_set_value v st = Inl (Future_error Promise_already_satisfied)"

fun promise_set_value_void :: "'r slot \<Rightarrow> error + 'r slot" where
  "promise_set_value_void Pending = Inr Resolved_void"
| "promise_set_value_void st = Inl (Future_error Promise_already_satisfied)"

fun promise_set_exception :: "error \<Rightarrow> 'r slot \<Rightarrow> error + 'r slot" where
  "promise_set_exception e Pending = Inr (Failed e)"
| "promise_set_exception e st = Inl (Future_error Promise_already_satisfied)"

text \<open>
  The destructor of a promise abandons its state: a state that is not ready yet is made
  ready with \<open>future_error(broken_promise)\<close>, a ready one is left alone.
\<close>

fun promise_destroy :: "'r slot \<Rightarrow> 'r slot" where
  "promise_destroy Pending = Failed (Future_error Broken_promise)"
| "promise_destroy st = st"

text \<open>
  A task is a callable with the arguments bound to it. Calling \<open>f(args...)\<close> either
  throws (\<open>Inl\<close>) or returns (\<open>Inr\<close>). The two constructors are the two result types
  that overload resolution tells apart: a value type \<open>R\<close>, and \<open>void\<close>.
\<close>

datatype ('a, 'r) task =
    Value_task "'a \<Rightarrow> error + 'r" 'a
  | Void_task "'a \<Rightarrow> error + unit" 'a

text \<open>What the result of \<open>get()\<close> can be; \<open>Undefined\<close> is \<open>get()\<close> on a future
  that has no shared state, which the standard leaves undefined.\<close>

datatype 'r result = Returned 'r | Returned_void | Thrown error | Undefined

fun slot_result :: "'r slot \<Rightarrow> 'r result option" where
  "slot_result Pending = None"
| "slot_result (Resolved v) = Some (Returned v)"
| "slot_result Resolved_void = Some Returned_void"
| "slot_result (Failed e) = Some (Thrown e)"

section \<open>The task manager\<close>

text \<open>
  \<open>set_value\<close>, first overload: \<open>promise.set_value(f(args...))\<close>.
  An exception of \<open>f\<close> or of \<open>promise.set_value\<close> leaves the function.
\<close>

definition set_value :: "'r slot \<Rightarrow> ('a \<Rightarrow> error + 'r) \<Rightarrow> 'a \<Rightarrow> error + 'r slot" where
  "set_value promise f args =
     (case f args of
        Inl e \<Rightarrow> Inl e
      | Inr v \<Rightarrow> promise_set_value v promise)"

text \<open>
  \<open>set_value\<close>, overload for \<open>std::promise<void>\<close>: \<open>f(args...)\<close> and nothing else
  (``If the function returns void, do not try to set the promise'').
\<close>

definition set_value_void :: "'r slot \<Rightarrow> ('a \<Rightarrow> error + unit) \<Rightarrow> 'a \<Rightarrow> error + 'r slot" where
  "set_value_void promise f args =
     (case f args of
        Inl e \<Rightarrow> Inl e
      | Inr u \<Rightarrow> Inr promise)"

text \<open>
  The \<open>try\<close> block of \<open>worker\<close> with its handlers: \<open>set_value\<close>; on any exception
  \<open>promise.set_exception(current_exception())\<close>; an exception of that is ignored.
\<close>

definition worker_try_block :: "'r slot \<Rightarrow> ('a, 'r) task \<Rightarrow> 'r slot" where
  "worker_try_block promise t =
     (case (case t of
              Value_task f args \<Rightarrow> set_value promise f args
            | Void_task f args \<Rightarrow> set_value_void promise f args) of
        Inr p \<Rightarrow> p
      | Inl e \<Rightarrow>
          (case promise_set_exception e promise of
             Inr p \<Rightarrow> p
           | Inl e' \<Rightarrow> promise))"

text \<open>
  \<open>packaged_task::operator()\<close>, which the thread of a \<open>Task\<close> runs: it calls the
  function and stores its value or its exception in the shared state.
\<close>

definition packaged_task_call :: "('a, 'r) task \<Rightarrow> 'r slot \<Rightarrow> error + 'r slot" where
  "packaged_task_call t st =
     (case st of
        Pending \<Rightarrow>
          (case t of
             Value_task f args \<Rightarrow>
               (case f args of Inl e \<Rightarrow> promise_set_exception e st
                             | Inr v \<Rightarrow> promise_set_value v st)
           | Void_task f args \<Rightarrow>
               (case f args of Inl e \<Rightarrow> promise_set_exception e st
                             | Inr u \<Rightarrow> promise_set_value_void st))
      | _ \<Rightarrow> Inl (Future_error Promise_already_satisfied))"

text \<open>
  The state of the program. \<open>task_count\<close> is the \<open>std::atomic<int>\<close> of the manager
  (32 bits; the arithmetic of an atomic integer wraps around),
  \<open>notified\<close> counts the calls of \<open>cond.notify_all()\<close>, \<open>shared\<close> is the store of
  shared states (a handle is an index into it) and \<open>units\<close> says, for each shared state,
  which detached thread writes it and where that thread stands:
  a \<open>worker\<close> before its \<open>try\<close> block, before taking the lock, after releasing the
  lock and before its \<open>promise\<close> parameter is destroyed (the local \<open>lock\<close> is destroyed
  first, the parameters after it), or gone; the thread of a \<open>Task\<close> before or
  after running its package; or no thread at all.
\<close>

datatype pc = At_try | At_lock | At_return | Exited

datatype ('a, 'r) unit_state =
    No_unit
  | Worker pc "('a, 'r) task"
  | Package bool "('a, 'r) task"

record ('a, 'r) system =
  task_count :: "32 word"
  notified :: nat
  shared :: "'r slot list"
  units :: "('a, 'r) unit_state list"

definition initial :: "('a, 'r) system" where
  "initial = \<lparr>task_count = 0, notified = 0, shared = [], units = []\<rparr>"

record std_future =
  fstate :: "nat option"

record Task =
  future :: "nat option"

text \<open>
  \<open>TaskManager::spawn\<close>: a promise and its future; \<open>task_count++\<close>; then the thread is
  constructed and detached. \<open>launch_ok\<close> is whether the constructor of \<open>std::thread\<close>
  succeeds; when it throws, the promise and the future are destroyed by the unwinding
  and the exception reaches the caller.
\<close>

definition spawn ::
  "('a, 'r) task \<Rightarrow> bool \<Rightarrow> ('a, 'r) system \<Rightarrow> (error + std_future) \<times> ('a, 'r) system" where
  "spawn t launch_ok s =
     (let f = \<lparr>fstate = Some (length (shared s))\<rparr>;
          s1 = s\<lparr>task_count := task_count s + 1\<rparr>
      in if launch_ok
         then (Inr f, s1\<lparr>shared := shared s1 @ [Pending],
                         units := units s1 @ [Worker At_try t]\<rparr>)
         else (Inl System_error, s1))"

text \<open>\<open>TaskManager::spawn_with_result\<close>: a promise, \<open>set_value(result)\<close>, its future.\<close>

definition spawn_with_result ::
  "'r \<Rightarrow> ('a, 'r) system \<Rightarrow> (error + std_future) \<times> ('a, 'r) system" where
  "spawn_with_result result s =
     (case promise_set_value result Pending of
        Inl e \<Rightarrow> (Inl e, s)
      | Inr promise \<Rightarrow>
          (Inr \<lparr>fstate = Some (length (shared s))\<rparr>,
           s\<lparr>shared := shared s @ [promise], units := units s @ [No_unit]\<rparr>))"

text \<open>The three parts of \<open>worker\<close>, run by the thread that writes shared state \<open>i\<close>.\<close>

definition worker_try :: "nat \<Rightarrow> ('a, 'r) task \<Rightarrow> ('a, 'r) system \<Rightarrow> ('a, 'r) system" where
  "worker_try i t s =
     s\<lparr>shared := (shared s)[i := worker_try_block (shared s ! i) t],
       units := (units s)[i := Worker At_lock t]\<rparr>"

text \<open>Under the mutex: \<open>task_count--\<close> and \<open>cond.notify_all()\<close>; then the mutex is
  released.\<close>

definition worker_lock :: "nat \<Rightarrow> ('a, 'r) task \<Rightarrow> ('a, 'r) system \<Rightarrow> ('a, 'r) system" where
  "worker_lock i t s =
     s\<lparr>task_count := task_count s - 1,
       notified := notified s + 1,
       units := (units s)[i := Worker At_return t]\<rparr>"

text \<open>Leaving \<open>worker\<close> destroys its \<open>promise\<close> parameter, with the mutex released.\<close>

definition worker_return :: "nat \<Rightarrow> ('a, 'r) task \<Rightarrow> ('a, 'r) system \<Rightarrow> ('a, 'r) system" where
  "worker_return i t s =
     s\<lparr>shared := (shared s)[i := promise_destroy (shared s ! i)],
       units := (units s)[i := Worker Exited t]\<rparr>"

text \<open>
  \<open>TaskManager::wait_all\<close>: \<open>cond.wait(lock, [] { return task_count == 0; })\<close> returns
  when it finds the predicate true under the mutex; \<open>None\<close> is a caller that stays blocked.
\<close>

definition wait_all :: "('a, 'r) system \<Rightarrow> unit option" where
  "wait_all s = (if task_count s = 0 then Some () else None)"

text \<open>
  \<open>std::future\<close>: \<open>valid\<close>, \<open>wait\<close> and \<open>get\<close>. \<open>get\<close> waits for the state to be ready,
  hands out the outcome and releases the shared state, so the future is not valid
  afterwards. \<open>None\<close> is a caller that stays blocked.
\<close>

definition future_valid :: "std_future \<Rightarrow> bool" where
  "future_valid h = (fstate h \<noteq> None)"

definition future_wait :: "std_future \<Rightarrow> ('a, 'r) system \<Rightarrow> unit result option" where
  "future_wait h s =
     (case fstate h of
        None \<Rightarrow> Some Undefined
      | Some i \<Rightarrow>
          if i < length (shared s)
          then (if terminal (shared s ! i) then Some Returned_void else None)
          else Some Undefined)"

definition future_get :: "std_future \<Rightarrow> ('a, 'r) system \<Rightarrow> 'r result option \<times> std_future" where
  "future_get h s =
     (case fstate h of
        None \<Rightarrow> (Some Undefined, h)
      | Some i \<Rightarrow>
          if i < length (shared s)
          then (case slot_result (shared s ! i) of
                  None \<Rightarrow> (None, h)
                | Some r \<Rightarrow> (Some r, h\<lparr>fstate := None\<rparr>))
          else (Some Undefined, h))"

section \<open>The shared task handle\<close>

text \<open>
  The constructor of \<open>Task<R>\<close>: a \<open>packaged_task\<close> for the function, its future made
  a \<open>shared_future\<close>, and a detached thread that runs the package with the arguments.
  When the constructor of \<open>std::thread\<close> throws, no \<open>Task\<close> comes to exist.
\<close>

definition Task_ctor ::
  "('a, 'r) task \<Rightarrow> bool \<Rightarrow> ('a, 'r) system \<Rightarrow> (error + Task) \<times> ('a, 'r) system" where
  "Task_ctor t launch_ok s =
     (if launch_ok
      then (Inr \<lparr>future = Some (length (shared s))\<rparr>,
            s\<lparr>shared := shared s @ [Pending], units := units s @ [Package False t]\<rparr>)
      else (Inl System_error, s))"

text \<open>The thread of a \<open>Task\<close>; an exception that left the package would end the program.\<close>

definition package_run ::
  "nat \<Rightarrow> ('a, 'r) task \<Rightarrow> ('a, 'r) system \<Rightarrow> ('a, 'r) system option" where
  "package_run i t s =
     (case packaged_task_call t (shared s ! i) of
        Inl e \<Rightarrow> None
      | Inr st \<Rightarrow> Some (s\<lparr>shared := (shared s)[i := st],
                          units := (units s)[i := Package True t]\<rparr>))"

text \<open>
  \<open>Task::valid\<close>, \<open>Task::get\<close> and \<open>Task::wait\<close> are \<open>const\<close> and forward to the
  \<open>shared_future\<close>, whose \<open>get\<close> keeps the shared state. The handle is returned as the
  call leaves it.
\<close>

definition Task_valid :: "Task \<Rightarrow> bool" where
  "Task_valid t = (future t \<noteq> None)"

definition Task_get :: "Task \<Rightarrow> ('a, 'r) system \<Rightarrow> 'r result option \<times> Task" where
  "Task_get t s =
     (case future t of
        None \<Rightarrow> (Some Undefined, t)
      | Some i \<Rightarrow>
          if i < length (shared s)
          then (slot_result (shared s ! i), t)
          else (Some Undefined, t))"

definition Task_wait :: "Task \<Rightarrow> ('a, 'r) system \<Rightarrow> unit result option" where
  "Task_wait t s =
     (case future t of
        None \<Rightarrow> Some Undefined
      | Some i \<Rightarrow>
          if i < length (shared s)
          then (if terminal (shared s ! i) then Some Returned_void else None)
          else Some Undefined)"

section \<open>Interleavings\<close>

text \<open>
  One event is one atomic action of one thread: a call of \<open>spawn\<close>,
  \<open>spawn_with_result\<close> or the constructor of \<open>Task\<close> by some caller, or the next part
  of the detached thread that writes shared state \<open>i\<close>. The decrement and the
  notification of a worker are one action, since the worker holds the mutex for both.
  An event that is not enabled has no successor. A callable that never returns is a thread whose next event never happens.
\<close>

datatype ('a, 'r) event =
    Spawn "('a, 'r) task" bool
  | Spawn_with_result 'r
  | Task_new "('a, 'r) task" bool
  | Worker_try nat
  | Worker_lock nat
  | Worker_return nat
  | Package_run nat

definition unit_at :: "('a, 'r) system \<Rightarrow> nat \<Rightarrow> ('a, 'r) unit_state" where
  "unit_at s i = (if i < length (units s) then units s ! i else No_unit)"

fun step :: "('a, 'r) event \<Rightarrow> ('a, 'r) system \<Rightarrow> ('a, 'r) system option" where
  "step (Spawn t ok) s = Some (snd (spawn t ok s))"
| "step (Spawn_with_result v) s = Some (snd (spawn_with_result v s))"
| "step (Task_new t ok) s = Some (snd (Task_ctor t ok s))"
| "step (Worker_try i) s =
     (case unit_at s i of Worker At_try t \<Rightarrow> Some (worker_try i t s) | _ \<Rightarrow> None)"
| "step (Worker_lock i) s =
     (case unit_at s i of Worker At_lock t \<Rightarrow> Some (worker_lock i t s) | _ \<Rightarrow> None)"
| "step (Worker_return i) s =
     (case unit_at s i of Worker At_return t \<Rightarrow> Some (worker_return i t s) | _ \<Rightarrow> None)"
| "step (Package_run i) s =
     (case unit_at s i of Package False t \<Rightarrow> package_run i t s | _ \<Rightarrow> None)"

fun run :: "('a, 'r) event list \<Rightarrow> ('a, 'r) system \<Rightarrow> ('a, 'r) system option" where
  "run [] s = Some s"
| "run (e # es) s = (case step e s of None \<Rightarrow> None | Some s' \<Rightarrow> run es s')"

text \<open>The task and the program point of a unit that runs \<open>worker\<close>.\<close>

fun worker_task :: "('a, 'r) unit_state \<Rightarrow> ('a, 'r) task option" where
  "worker_task (Worker p t) = Some t"
| "worker_task u = None"

fun worker_pc :: "('a, 'r) unit_state \<Rightarrow> pc option" where
  "worker_pc (Worker p t) = Some p"
| "worker_pc u = None"


text \<open>
  What the shared state of a unit holds at each point of its thread, given that it
  started not ready.
\<close>

fun worker_slot :: "pc \<Rightarrow> ('a, 'r) task \<Rightarrow> 'r slot" where
  "worker_slot At_try t = Pending"
| "worker_slot At_lock t = worker_try_block Pending t"
| "worker_slot At_return t = worker_try_block Pending t"
| "worker_slot Exited t = promise_destroy (worker_try_block Pending t)"

fun slot_ok :: "('a, 'r) unit_state \<Rightarrow> 'r slot \<Rightarrow> bool" where
  "slot_ok No_unit st = (case st of Resolved v \<Rightarrow> True | _ \<Rightarrow> False)"
| "slot_ok (Worker p t) st = (st = worker_slot p t)"
| "slot_ok (Package False t) st = (st = Pending)"
| "slot_ok (Package True t) st = (packaged_task_call t Pending = Inr st)"

definition consistent :: "('a, 'r) system \<Rightarrow> bool" where
  "consistent s = list_all2 slot_ok (units s) (shared s)"

section \<open>Concrete tasks\<close>

text \<open>A task that computes \<open>2 + 2\<close>, one that throws an exception with the message
  \<open>boom\<close>, one that returns \<open>void\<close>, and one of result type \<open>void\<close> that throws;
  none takes an argument.\<close>

definition two_plus_two :: "(unit, int) task" where
  "two_plus_two = Value_task (\<lambda>u. Inr (2 + 2)) ()"

definition boom :: "(unit, int) task" where
  "boom = Value_task (\<lambda>u. Inl (Exn ''boom'')) ()"

definition nothing :: "(unit, int) task" where
  "nothing = Void_task (\<lambda>u. Inr ()) ()"

definition void_boom :: "(unit, int) task" where
  "void_boom = Void_task (\<lambda>u. Inl (Exn ''boom'')) ()"

section \<open>Counting outstanding workers\<close>

text \<open>
  A worker has a decrement of \<open>task_count\<close> still ahead of it while it stands before its
  \<open>try\<close> block or before the lock. \<open>outstanding\<close> counts these workers;
  \<open>failed_launch\<close> marks the calls of \<open>spawn\<close> in which no thread could be started.
\<close>

fun pending_decrement :: "('a, 'r) unit_state \<Rightarrow> nat" where
  "pending_decrement (Worker At_try t) = 1"
| "pending_decrement (Worker At_lock t) = 1"
| "pending_decrement u = 0"

definition outstanding :: "('a, 'r) system \<Rightarrow> nat" where
  "outstanding s = sum_list (map pending_decrement (units s))"

fun failed_launch :: "('a, 'r) event \<Rightarrow> nat" where
  "failed_launch (Spawn t ok) = (if ok then 0 else 1)"
| "failed_launch e = 0"

section \<open>Properties of the array\<close>

text \<open>
  C10. For a well-formed \<open>Array<T, N>\<close> and every index \<open>i\<close>: when \<open>i < N\<close>, \<open>at(i)\<close>
  returns the reference to element \<open>i\<close> (reading it gives \<open>elems[i]\<close>); when \<open>i \<ge> N\<close>
  it throws \<open>std::out_of_range\<close>; in both cases the array is unchanged. \<open>operator[]\<close>
  returns the reference for every index, in range or not, and never throws.
\<close>

theorem Array_at_checked:
  assumes "length (elems a) = N"
  shows "(i < N \<longrightarrow> Array_at N a i = (Inr (Elem_ref i), a)
                \<and> deref a (Elem_ref i) = Some (elems a ! i))
       \<and> (i \<ge> N \<longrightarrow> Array_at N a i = (Inl (Out_of_range ''Array<>: index out of range''), a))
       \<and> snd (Array_at N a i) = a
       \<and> Array_subscript N a i = (Elem_ref i, a)"
  using assms
  by (simp add: Array_at_def boundscheck_def deref_def Array_subscript_def)

theorem Array_at_checked_witness:
  "length (elems \<lparr>elems = [10, 20, 30 :: int]\<rparr>) = 3
   \<and> (1::nat) < 3
   \<and> Array_at 3 \<lparr>elems = [10, 20, 30 :: int]\<rparr> 1 = (Inr (Elem_ref 1), \<lparr>elems = [10, 20, 30]\<rparr>)
   \<and> deref \<lparr>elems = [10, 20, 30 :: int]\<rparr> (Elem_ref 1) = Some 20
   \<and> (3::nat) \<ge> 3
   \<and> Array_at 3 \<lparr>elems = [10, 20, 30 :: int]\<rparr> 3
       = (Inl (Out_of_range ''Array<>: index out of range''), \<lparr>elems = [10, 20, 30]\<rparr>)
   \<and> Array_subscript 3 \<lparr>elems = [10, 20, 30 :: int]\<rparr> 3 = (Elem_ref 3, \<lparr>elems = [10, 20, 30]\<rparr>)"
  using Array_at_checked [of "\<lparr>elems = [10, 20, 30 :: int]\<rparr>" 3 1]
        Array_at_checked [of "\<lparr>elems = [10, 20, 30 :: int]\<rparr>" 3 3]
  by simp

section \<open>Invariants of the interleavings\<close>

lemma consistent_initial: "consistent initial"
  by (simp add: consistent_def initial_def)

lemma consistentD:
  "consistent s \<Longrightarrow> length (units s) = length (shared s)"
  "consistent s \<Longrightarrow> i < length (units s) \<Longrightarrow> slot_ok (units s ! i) (shared s ! i)"
  by (simp_all add: consistent_def list_all2_conv_all_nth)

lemma worker_try_consistent:
  assumes "consistent s" "i < length (units s)" "units s ! i = Worker At_try t"
  shows "consistent (worker_try i t s)"
proof -
  have "shared s ! i = Pending" using consistentD(2)[OF assms(1,2)] assms(3) by simp
  then show ?thesis using assms(1)
    by (simp add: consistent_def worker_try_def list_all2_update_cong)
qed

lemma worker_lock_consistent:
  assumes "consistent s" "i < length (units s)" "units s ! i = Worker At_lock t"
  shows "consistent (worker_lock i t s)"
proof -
  have "slot_ok (Worker At_return t) (shared s ! i)"
    using consistentD(2)[OF assms(1,2)] assms(3) by simp
  then have "list_all2 slot_ok ((units s)[i := Worker At_return t]) ((shared s)[i := shared s ! i])"
    using assms(1) unfolding consistent_def by (intro list_all2_update_cong) 
  then show ?thesis
    by (simp add: consistent_def worker_lock_def)
qed

lemma worker_return_consistent:
  assumes "consistent s" "i < length (units s)" "units s ! i = Worker At_return t"
  shows "consistent (worker_return i t s)"
proof -
  have "shared s ! i = worker_try_block Pending t"
    using consistentD(2)[OF assms(1,2)] assms(3) by simp
  then show ?thesis using assms(1)
    by (simp add: consistent_def worker_return_def list_all2_update_cong)
qed

lemma package_run_consistent:
  assumes "consistent s" "i < length (units s)" "units s ! i = Package False t"
    and "package_run i t s = Some s'"
  shows "consistent s'"
proof -
  have "shared s ! i = Pending" using consistentD(2)[OF assms(1,2)] assms(3) by simp
  then show ?thesis using assms(1,4)
    by (auto simp add: consistent_def package_run_def list_all2_update_cong split: sum.splits)
qed

lemma step_consistent:
  assumes "consistent s" "step e s = Some s'"
  shows "consistent s'"
proof (cases e)
  case (Spawn t ok)
  then show ?thesis using assms
    by (auto simp add: consistent_def spawn_def Let_def list_all2_appendI)
next
  case (Spawn_with_result v)
  then show ?thesis using assms
    by (auto simp add: consistent_def spawn_with_result_def list_all2_appendI)
next
  case (Task_new t ok)
  then show ?thesis using assms
    by (auto simp add: consistent_def Task_ctor_def list_all2_appendI)
next
  case (Worker_try i)
  then show ?thesis using assms
    by (auto simp add: unit_at_def worker_try_consistent split: unit_state.splits pc.splits if_splits)
next
  case (Worker_lock i)
  then show ?thesis using assms
    by (auto simp add: unit_at_def worker_lock_consistent split: unit_state.splits pc.splits if_splits)
next
  case (Worker_return i)
  then show ?thesis using assms
    by (auto simp add: unit_at_def worker_return_consistent split: unit_state.splits pc.splits if_splits)
next
  case (Package_run i)
  then show ?thesis using assms
    by (auto simp add: unit_at_def package_run_consistent split: unit_state.splits bool.splits if_splits)
qed

lemma run_consistent:
  "consistent s \<Longrightarrow> run evs s = Some s' \<Longrightarrow> consistent s'"
  by (induction evs arbitrary: s) (auto split: option.splits dest: step_consistent)

lemma reachable_consistent: "run evs initial = Some s \<Longrightarrow> consistent s"
  using run_consistent [OF consistent_initial] .

lemma promise_destroy_terminal: "terminal st \<Longrightarrow> promise_destroy st = st"
  by (cases st) simp_all

lemma step_shared_length: "step e s = Some s' \<Longrightarrow> length (shared s) \<le> length (shared s')"
  by (cases e)
     (auto simp add: spawn_def spawn_with_result_def Task_ctor_def Let_def worker_try_def
        worker_lock_def worker_return_def package_run_def
        split: unit_state.splits pc.splits bool.splits if_splits sum.splits)

lemma run_shared_length: "run evs s = Some s' \<Longrightarrow> length (shared s) \<le> length (shared s')"
proof (induction evs arbitrary: s)
  case Nil
  then show ?case by simp
next
  case (Cons e es)
  then obtain s1 where 1: "step e s = Some s1" and 2: "run es s1 = Some s'"
    by (auto split: option.splits)
  show ?case using step_shared_length[OF 1] Cons.IH[OF 2] by simp
qed

lemma step_terminal_stable:
  assumes "consistent s" "step e s = Some s'" "i < length (shared s)" "terminal (shared s ! i)"
  shows "shared s' ! i = shared s ! i"
proof -
  have len: "length (units s) = length (shared s)" using assms(1) by (rule consistentD(1))
  have ok: "slot_ok (units s ! i) (shared s ! i)" using consistentD(2)[OF assms(1)] assms(3) len by simp
  show ?thesis
  proof (cases e)
    case (Spawn t ok)
    then show ?thesis using assms(2,3) by (auto simp add: spawn_def Let_def nth_append)
  next
    case (Spawn_with_result v)
    then show ?thesis using assms(2,3) by (auto simp add: spawn_with_result_def nth_append)
  next
    case (Task_new t ok)
    then show ?thesis using assms(2,3) by (auto simp add: Task_ctor_def nth_append)
  next
    case (Worker_try j)
    then show ?thesis using assms(2,3,4) ok
      by (cases "j = i")
         (auto simp add: unit_at_def worker_try_def split: unit_state.splits pc.splits if_splits)
  next
    case (Worker_lock j)
    then show ?thesis using assms(2)
      by (auto simp add: unit_at_def worker_lock_def split: unit_state.splits pc.splits if_splits)
  next
    case (Worker_return j)
    then show ?thesis using assms(2,3,4)
      by (cases "j = i")
         (auto simp add: unit_at_def worker_return_def promise_destroy_terminal
            split: unit_state.splits pc.splits if_splits)
  next
    case (Package_run j)
    then show ?thesis using assms(2,3,4) ok
      by (cases "j = i")
         (auto simp add: unit_at_def package_run_def
            split: unit_state.splits bool.splits if_splits sum.splits)
  qed
qed

lemma run_terminal_stable:
  "consistent s \<Longrightarrow> run evs s = Some s' \<Longrightarrow> i < length (shared s) \<Longrightarrow> terminal (shared s ! i)
   \<Longrightarrow> shared s' ! i = shared s ! i"
proof (induction evs arbitrary: s)
  case Nil
  then show ?case by simp
next
  case (Cons e es)
  then obtain s1 where 1: "step e s = Some s1" and 2: "run es s1 = Some s'"
    by (auto split: option.splits)
  have c1: "consistent s1" using step_consistent[OF Cons.prems(1) 1] .
  have e1: "shared s1 ! i = shared s ! i"
    using step_terminal_stable[OF Cons.prems(1) 1 Cons.prems(3,4)] .
  have l1: "i < length (shared s1)" using step_shared_length[OF 1] Cons.prems(3) by simp
  have "shared s' ! i = shared s1 ! i"
    using Cons.IH[OF c1 2 l1] e1 Cons.prems(4) by simp
  then show ?case using e1 by simp
qed

lemma step_worker_task:
  assumes "step e s = Some s'" "worker_task (unit_at s i) = Some t"
  shows "worker_task (unit_at s' i) = Some t"
proof -
  have i: "i < length (units s)" using assms(2) by (auto simp add: unit_at_def split: if_splits)
  show ?thesis
  proof (cases e)
    case (Spawn t ok)
    then show ?thesis using assms i by (auto simp add: spawn_def Let_def unit_at_def nth_append)
  next
    case (Spawn_with_result v)
    then show ?thesis using assms i by (auto simp add: spawn_with_result_def unit_at_def nth_append)
  next
    case (Task_new t ok)
    then show ?thesis using assms i by (auto simp add: Task_ctor_def unit_at_def nth_append)
  next
    case (Worker_try j)
    then show ?thesis using assms i
      by (cases "j = i")
         (auto simp add: unit_at_def worker_try_def split: unit_state.splits pc.splits if_splits)
  next
    case (Worker_lock j)
    then show ?thesis using assms i
      by (cases "j = i")
         (auto simp add: unit_at_def worker_lock_def split: unit_state.splits pc.splits if_splits)
  next
    case (Worker_return j)
    then show ?thesis using assms i
      by (cases "j = i")
         (auto simp add: unit_at_def worker_return_def split: unit_state.splits pc.splits if_splits)
  next
    case (Package_run j)
    then show ?thesis using assms i
      by (cases "j = i")
         (auto simp add: unit_at_def package_run_def
            split: unit_state.splits bool.splits if_splits sum.splits)
  qed
qed

lemma run_worker_task:
  "run evs s = Some s' \<Longrightarrow> worker_task (unit_at s i) = Some t
   \<Longrightarrow> worker_task (unit_at s' i) = Some t"
  by (induction evs arbitrary: s) (auto split: option.splits dest: step_worker_task)


lemma worker_slot_at:
  assumes "consistent s" "unit_at s i = Worker p t"
  shows "i < length (shared s) \<and> shared s ! i = worker_slot p t"
proof -
  have i: "i < length (units s)" and u: "units s ! i = Worker p t"
    using assms(2) by (auto simp add: unit_at_def split: if_splits)
  show ?thesis using consistentD(1)[OF assms(1)] consistentD(2)[OF assms(1) i] i u by simp
qed

lemma worker_cases:
  assumes "worker_task u = Some t"
  obtains p where "u = Worker p t"
  using assms by (cases u) auto

lemma try_block_returns:
  "f args = Inr v \<Longrightarrow> worker_try_block Pending (Value_task f args) = Resolved v"
  by (simp add: worker_try_block_def set_value_def)


lemma try_block_void_returns:
  "f args = Inr u \<Longrightarrow> worker_try_block Pending (Void_task f args) = Pending"
  by (simp add: worker_try_block_def set_value_void_def)

lemma worker_slot_void_returns:
  "f args = Inr u \<Longrightarrow>
   worker_slot p (Void_task f args)
     = (if p = Exited then Failed (Future_error Broken_promise) else Pending)"
  by (cases p) (simp_all add: try_block_void_returns)

lemma spawn_ok:
  "spawn t True s =
     (Inr \<lparr>fstate = Some (length (shared s))\<rparr>,
      s\<lparr>task_count := task_count s + 1, shared := shared s @ [Pending],
        units := units s @ [Worker At_try t]\<rparr>)"
  by (simp add: spawn_def Let_def)

lemma spawn_launch_failure:
  "spawn t False s = (Inl System_error, s\<lparr>task_count := task_count s + 1\<rparr>)"
  by (simp add: spawn_def Let_def)

lemma worker_slot_returns:
  "f args = Inr v \<Longrightarrow>
   worker_slot p (Value_task f args) = (if p = At_try then Pending else Resolved v)"
  by (cases p) (simp_all add: try_block_returns)


lemma future_get_worker:
  assumes "consistent s" "unit_at s i = Worker p t"
  shows "fst (future_get \<lparr>fstate = Some i\<rparr> s) = slot_result (worker_slot p t)"
  using worker_slot_at[OF assms]
  by (simp add: future_get_def split: option.splits)


lemma slot_result_terminal: "slot_result st = Some r \<Longrightarrow> terminal st"
  by (cases st) simp_all

text \<open>
  The counter and the workers: in every reachable state \<open>task_count\<close> is, modulo
  \<open>2^32\<close>, the number of outstanding workers plus the number of failed launches.
\<close>

lemma outstanding_update:
  assumes "i < length (units s)"
  shows "sum_list (map pending_decrement ((units s)[i := u])) + pending_decrement (units s ! i)
         = outstanding s + pending_decrement u"
proof -
  have le: "pending_decrement (units s ! i) \<le> sum_list (map pending_decrement (units s))"
    using assms by (intro member_le_sum_list) auto
  have "sum_list ((map pending_decrement (units s))[i := pending_decrement u])
        = sum_list (map pending_decrement (units s)) + pending_decrement u
          - (map pending_decrement (units s)) ! i"
    using assms by (intro sum_list_update) simp
  then show ?thesis using le assms by (simp add: outstanding_def map_update)
qed

lemma step_count:
  assumes "step e s = Some s'" "task_count s = of_nat (outstanding s + k)"
  shows "task_count s' = of_nat (outstanding s' + k + failed_launch e)"
proof (cases e)
  case (Spawn t ok)
  then show ?thesis using assms by (auto simp add: spawn_def Let_def outstanding_def)
next
  case (Spawn_with_result v)
  then show ?thesis using assms by (auto simp add: spawn_with_result_def outstanding_def)
next
  case (Task_new t ok)
  then show ?thesis using assms by (auto simp add: Task_ctor_def outstanding_def)
next
  case (Worker_try i)
  then obtain t where u: "unit_at s i = Worker At_try t" and s': "s' = worker_try i t s"
    using assms(1) by (auto split: unit_state.splits pc.splits)
  have i: "i < length (units s)" and ui: "units s ! i = Worker At_try t"
    using u by (auto simp add: unit_at_def split: if_splits)
  have "outstanding s' = outstanding s"
    using outstanding_update[OF i, of "Worker At_lock t"] ui
    by (simp add: s' worker_try_def outstanding_def)
  then show ?thesis using assms(2) Worker_try by (simp add: s' worker_try_def)
next
  case (Worker_lock i)
  then obtain t where u: "unit_at s i = Worker At_lock t" and s': "s' = worker_lock i t s"
    using assms(1) by (auto split: unit_state.splits pc.splits)
  have i: "i < length (units s)" and ui: "units s ! i = Worker At_lock t"
    using u by (auto simp add: unit_at_def split: if_splits)
  have o: "outstanding s = Suc (outstanding s')"
    using outstanding_update[OF i, of "Worker At_return t"] ui
    by (simp add: s' worker_lock_def outstanding_def)
  have "task_count s' = of_nat (outstanding s + k) - 1"
    using assms(2) by (simp add: s' worker_lock_def)
  also have "\<dots> = of_nat (Suc (outstanding s' + k)) - 1"
    by (simp only: o add_Suc)
  also have "\<dots> = of_nat (outstanding s' + k)"
    by simp
  finally show ?thesis using Worker_lock by simp
next
  case (Worker_return i)
  then obtain t where u: "unit_at s i = Worker At_return t" and s': "s' = worker_return i t s"
    using assms(1) by (auto split: unit_state.splits pc.splits)
  have i: "i < length (units s)" and ui: "units s ! i = Worker At_return t"
    using u by (auto simp add: unit_at_def split: if_splits)
  have "outstanding s' = outstanding s"
    using outstanding_update[OF i, of "Worker Exited t"] ui
    by (simp add: s' worker_return_def outstanding_def)
  then show ?thesis using assms(2) Worker_return by (simp add: s' worker_return_def)
next
  case (Package_run i)
  then obtain t where u: "unit_at s i = Package False t" and s': "package_run i t s = Some s'"
    using assms(1) by (auto split: unit_state.splits bool.splits)
  have i: "i < length (units s)" and ui: "units s ! i = Package False t"
    using u by (auto simp add: unit_at_def split: if_splits)
  have "outstanding s' = outstanding s \<and> task_count s' = task_count s"
    using outstanding_update[OF i, of "Package True t"] ui s'
    by (auto simp add: package_run_def outstanding_def split: sum.splits)
  then show ?thesis using assms(2) Package_run by simp
qed

lemma run_count:
  "run evs s = Some s' \<Longrightarrow> task_count s = of_nat (outstanding s + k)
   \<Longrightarrow> task_count s' = of_nat (outstanding s' + k + sum_list (map failed_launch evs))"
proof (induction evs arbitrary: s k)
  case Nil
  then show ?case by simp
next
  case (Cons e es)
  then obtain s1 where 1: "step e s = Some s1" and 2: "run es s1 = Some s'"
    by (auto split: option.splits)
  have "task_count s1 = of_nat (outstanding s1 + (k + failed_launch e))"
    using step_count[OF 1 Cons.prems(2)] by (simp add: add.assoc)
  from Cons.IH[OF 2 this] show ?case by (simp add: add.assoc)
qed

lemma task_count_outstanding:
  assumes "run evs initial = Some s"
  shows "task_count s = of_nat (outstanding s + sum_list (map failed_launch evs))"
  using run_count[OF assms, of 0] by (simp add: initial_def outstanding_def)

text \<open>The equations that evaluate a run on a concrete state.\<close>

lemmas run_defs = spawn_def spawn_with_result_def Task_ctor_def initial_def Let_def unit_at_def
  worker_try_def worker_lock_def worker_return_def package_run_def packaged_task_call_def
  worker_try_block_def set_value_def set_value_void_def

section \<open>Results of spawned tasks\<close>

text \<open>
  A callable of a value type: in any reachable state, when \<open>f(args)\<close> returns \<open>v\<close>,
  \<open>spawn\<close> hands back a handle to a shared state that is not ready and a worker that
  holds \<open>f\<close> and \<open>args\<close>; the worker's first action stores \<open>v\<close>; in every later
  state the shared state is either still not ready or holds \<open>v\<close>.
\<close>

lemma value_task_result:
  assumes "run evs initial = Some s"
    and "f args = Inr v"
    and "spawn (Value_task f args) True s = (r, s1)"
    and "run evs' s1 = Some s2"
  shows "r = Inr \<lparr>fstate = Some (length (shared s))\<rparr>
       \<and> unit_at s1 (length (shared s)) = Worker At_try (Value_task f args)
       \<and> shared s1 ! length (shared s) = Pending
       \<and> map_option (\<lambda>x. shared x ! length (shared s)) (run [Worker_try (length (shared s))] s1)
           = Some (Resolved v)
       \<and> worker_task (unit_at s2 (length (shared s))) = Some (Value_task f args)
       \<and> shared s2 ! length (shared s)
           = (if worker_pc (unit_at s2 (length (shared s))) = Some At_try
              then Pending else Resolved v)
       \<and> fst (future_get \<lparr>fstate = Some (length (shared s))\<rparr> s2)
           = (if worker_pc (unit_at s2 (length (shared s))) = Some At_try
              then None else Some (Returned v))"
proof -
  let ?h = "length (shared s)"
  let ?t = "Value_task f args"
  have cs: "consistent s" using assms(1) by (rule reachable_consistent)
  have len: "length (units s) = ?h" using cs by (rule consistentD(1))
  have r: "r = Inr \<lparr>fstate = Some ?h\<rparr>"
    and s1: "s1 = s\<lparr>task_count := task_count s + 1, shared := shared s @ [Pending],
                    units := units s @ [Worker At_try ?t]\<rparr>"
    using assms(3) by (simp_all add: spawn_ok)
  have u1: "unit_at s1 ?h = Worker At_try ?t" using len by (simp add: s1 unit_at_def nth_append)
  have p1: "shared s1 ! ?h = Pending" by (simp add: s1)
  have st: "step (Spawn ?t True) s = Some s1" using assms(3) by simp
  have c1: "consistent s1" using step_consistent[OF cs st] .
  have c2: "consistent s2" using run_consistent[OF c1 assms(4)] .
  have tr: "run [Worker_try ?h] s1 = Some (worker_try ?h ?t s1)" using u1 by simp
  have try_slot: "shared (worker_try ?h ?t s1) ! ?h = Resolved v"
    by (simp add: worker_try_def s1 try_block_returns[of f args v, OF assms(2)])
  have wt: "worker_task (unit_at s2 ?h) = Some ?t"
    using run_worker_task[OF assms(4), of ?h ?t] u1 by simp
  then obtain p where u2: "unit_at s2 ?h = Worker p ?t" by (rule worker_cases)
  have slot2: "shared s2 ! ?h = worker_slot p ?t" using worker_slot_at[OF c2 u2] by simp
  have get2: "fst (future_get \<lparr>fstate = Some ?h\<rparr> s2) = slot_result (worker_slot p ?t)"
    using future_get_worker[OF c2 u2] .
  show ?thesis
    using r u1 p1 tr try_slot wt slot2 get2
    by (simp add: u2 worker_slot_returns[of f args v, OF assms(2)])
qed



section \<open>The handle that is ready from the start\<close>

text \<open>
  C8. In any reachable state, \<open>spawn_with_result(v)\<close> returns a valid handle whose
  shared state holds \<open>v\<close>. It starts no thread (the new shared state has no unit) and
  leaves \<open>task_count\<close> and the notifications as they were. \<open>get()\<close> returns \<open>v\<close>
  and \<open>wait()\<close> returns, at once and in every later state; neither ever blocks.
\<close>

theorem spawn_with_result_ready:
  assumes "run evs initial = Some s"
    and "spawn_with_result v s = (r, s1)"
    and "run evs' s1 = Some s2"
  shows "r = Inr \<lparr>fstate = Some (length (shared s))\<rparr>
       \<and> future_valid \<lparr>fstate = Some (length (shared s))\<rparr>
       \<and> task_count s1 = task_count s
       \<and> notified s1 = notified s
       \<and> units s1 = units s @ [No_unit]
       \<and> shared s1 = shared s @ [Resolved v]
       \<and> future_get \<lparr>fstate = Some (length (shared s))\<rparr> s1
           = (Some (Returned v), \<lparr>fstate = None\<rparr>)
       \<and> future_wait \<lparr>fstate = Some (length (shared s))\<rparr> s1 = Some Returned_void
       \<and> future_get \<lparr>fstate = Some (length (shared s))\<rparr> s2
           = (Some (Returned v), \<lparr>fstate = None\<rparr>)
       \<and> future_wait \<lparr>fstate = Some (length (shared s))\<rparr> s2 = Some Returned_void"
proof -
  let ?h = "length (shared s)"
  have cs: "consistent s" using assms(1) by (rule reachable_consistent)
  have r: "r = Inr \<lparr>fstate = Some ?h\<rparr>"
    and s1: "s1 = s\<lparr>shared := shared s @ [Resolved v], units := units s @ [No_unit]\<rparr>"
    using assms(2) by (simp_all add: spawn_with_result_def)
  have st: "step (Spawn_with_result v) s = Some s1" using assms(2) by simp
  have c1: "consistent s1" using step_consistent[OF cs st] .
  have h1: "?h < length (shared s1)" and t1: "terminal (shared s1 ! ?h)"
    and v1: "shared s1 ! ?h = Resolved v" by (simp_all add: s1)
  have v2: "shared s2 ! ?h = Resolved v"
    using run_terminal_stable[OF c1 assms(3) h1 t1] v1 by simp
  have h2: "?h < length (shared s2)" using run_shared_length[OF assms(3)] h1 by simp
  show ?thesis
    using r v2 h2 by (simp add: s1 future_valid_def future_get_def future_wait_def)
qed

theorem spawn_with_result_ready_witness:
  "run [Spawn boom True] initial \<noteq> None
   \<and> (case run [Spawn boom True] initial of
        None \<Rightarrow> False
      | Some s \<Rightarrow>
          fst (spawn_with_result 7 s) = Inr \<lparr>fstate = Some 1\<rparr>
        \<and> task_count (snd (spawn_with_result 7 s)) = 1
        \<and> (case run [Worker_try 0, Spawn two_plus_two True, Worker_lock 0]
                  (snd (spawn_with_result 7 s)) of
             None \<Rightarrow> False
           | Some s2 \<Rightarrow> fst (future_get \<lparr>fstate = Some 1\<rparr> s2) = Some (Returned 7)
                      \<and> future_wait \<lparr>fstate = Some 1\<rparr> s2 = Some Returned_void))"
proof -
  let ?evs = "[Worker_try 0, Spawn two_plus_two True, Worker_lock 0] :: (unit, int) event list"
  obtain s where 1: "run [Spawn boom True] initial = Some (s :: (unit, int) system)"
    by simp
  have 0: "length (shared s) = 1 \<and> task_count s = 1" using 1 by (auto simp add: run_defs)
  have 2: "spawn_with_result 7 s = (fst (spawn_with_result 7 s), snd (spawn_with_result 7 s))"
    by simp
  have u: "unit_at s 0 = Worker At_try boom" using 1 by (auto simp add: run_defs)
  obtain s2 where 3: "run ?evs (snd (spawn_with_result 7 s)) = Some s2"
    using u by (auto simp add: run_defs nth_append split: if_splits)
  show ?thesis
    using spawn_with_result_ready[OF 1 2 3] 0 1 3 by simp
qed

section \<open>Reading a result twice\<close>

text \<open>
  C3, as stated, fails for the handle of the task manager. \<open>spawn\<close> returns a
  \<open>std::future\<close>: the first \<open>get()\<close> on the handle of the task \<open>2 + 2\<close> returns 4
  and leaves the handle without shared state (\<open>valid()\<close> is false), and a second
  \<open>get()\<close> on it is undefined, not 4.
\<close>

theorem future_get_twice_counterexample:
  "fst (spawn two_plus_two True initial) = Inr \<lparr>fstate = Some 0\<rparr>
   \<and> (case run [Spawn two_plus_two True, Worker_try 0, Worker_lock 0, Worker_return 0] initial of
        None \<Rightarrow> False
      | Some s \<Rightarrow>
          future_get \<lparr>fstate = Some 0\<rparr> s = (Some (Returned 4), \<lparr>fstate = None\<rparr>)
        \<and> \<not> future_valid \<lparr>fstate = None\<rparr>
        \<and> fst (future_get (snd (future_get \<lparr>fstate = Some 0\<rparr> s)) s) = Some Undefined
        \<and> fst (future_get (snd (future_get \<lparr>fstate = Some 0\<rparr> s)) s)
            \<noteq> fst (future_get \<lparr>fstate = Some 0\<rparr> s))"
  by (simp add: run_defs two_plus_two_def future_get_def future_valid_def)

text \<open>
  C3, amended. For every handle that the constructor of \<open>Task\<close> returns, in every later
  state in which \<open>get()\<close> returns an outcome, it leaves the handle as it was, and in
  every state after that \<open>get()\<close> returns the same outcome again: the same value or
  the same exception.
\<close>

theorem Task_get_repeatable:
  assumes "run evs initial = Some s0"
    and "Task_ctor u ok s0 = (Inr t, s1)"
    and "run evs1 s1 = Some s2"
    and "Task_get t s2 = (Some r, t')"
    and "run evs2 s2 = Some s3"
  shows "Task_valid t \<and> t' = t \<and> Task_get t' s3 = (Some r, t')"
proof -
  let ?h = "length (shared s0)"
  have c0: "consistent s0" using assms(1) by (rule reachable_consistent)
  have ok: "ok" and t: "t = \<lparr>future = Some ?h\<rparr>"
    and s1: "s1 = s0\<lparr>shared := shared s0 @ [Pending], units := units s0 @ [Package False u]\<rparr>"
    using assms(2) by (auto simp add: Task_ctor_def split: if_splits)
  have st: "step (Task_new u ok) s0 = Some s1" using assms(2) by simp
  have c1: "consistent s1" using step_consistent[OF c0 st] .
  have c2: "consistent s2" using run_consistent[OF c1 assms(3)] .
  have h1: "?h < length (shared s1)" by (simp add: s1)
  have h2: "?h < length (shared s2)" using run_shared_length[OF assms(3)] h1 by simp
  have h3: "?h < length (shared s3)" using run_shared_length[OF assms(5)] h2 by simp
  have g2: "slot_result (shared s2 ! ?h) = Some r" and t': "t' = t"
    using assms(4) h2 by (simp_all add: Task_get_def t)
  have "shared s3 ! ?h = shared s2 ! ?h"
    using run_terminal_stable[OF c2 assms(5) h2 slot_result_terminal[OF g2]] .
  then show ?thesis
    using g2 h3 t' by (simp add: Task_get_def Task_valid_def t)
qed

theorem Task_get_repeatable_witness:
  "run [] initial = Some (initial :: (unit, int) system)
   \<and> fst (Task_ctor boom True initial) = Inr \<lparr>future = Some 0\<rparr>
   \<and> (case run [Package_run 0] (snd (Task_ctor boom True initial)) of
        None \<Rightarrow> False
      | Some s2 \<Rightarrow>
          Task_get \<lparr>future = Some 0\<rparr> s2 = (Some (Thrown (Exn ''boom'')), \<lparr>future = Some 0\<rparr>)
        \<and> (case run [Spawn two_plus_two True, Worker_try 1] s2 of
             None \<Rightarrow> False
           | Some s3 \<Rightarrow>
               Task_get \<lparr>future = Some 0\<rparr> s3
                 = (Some (Thrown (Exn ''boom'')), \<lparr>future = Some 0\<rparr>)))"
proof -
  let ?s1 = "snd (Task_ctor boom True (initial :: (unit, int) system))"
  have 1: "run [] initial = Some (initial :: (unit, int) system)" by simp
  have 2: "Task_ctor boom True initial = (Inr \<lparr>future = Some 0\<rparr>, ?s1)"
    by (simp add: Task_ctor_def initial_def)
  obtain s2 where 3: "run [Package_run 0] ?s1 = Some s2"
    by (simp add: run_defs boom_def)
  have 4: "Task_get \<lparr>future = Some 0\<rparr> s2
             = (Some (Thrown (Exn ''boom'')), \<lparr>future = Some 0\<rparr>)"
    using 3 by (auto simp add: run_defs boom_def Task_get_def)
  have u: "length (units s2) = 1" using 3 by (auto simp add: run_defs boom_def)
  obtain s3 where 5: "run [Spawn two_plus_two True, Worker_try 1] s2 = Some s3"
    using u by (simp add: run_defs nth_append)
  have 6: "fst (Task_ctor boom True (initial :: (unit, int) system)) = Inr \<lparr>future = Some 0\<rparr>"
    by (simp add: Task_ctor_def initial_def)
  show ?thesis
    using Task_get_repeatable[OF 1 2 3 4 5] 3 4 5 6 by simp
qed

section \<open>Where the code departs from the specification\<close>

text \<open>
  C1. A spawned task whose callable returns \<open>void\<close> and completes: the overload of
  \<open>set_value\<close> for \<open>promise<void>\<close> calls the function and never sets the promise.
  After the \<open>try\<close> block and the decrement the shared state is still not ready and
  \<open>get()\<close> and \<open>wait()\<close> block. When the worker returns, the destructor of its
  promise makes the state ready with \<open>broken_promise\<close>, so \<open>get()\<close> throws instead of
  returning. The same task run through \<open>Task\<close> ends in the valueless ready state.
\<close>

theorem void_task_broken_promise:
  "fst (spawn nothing True initial) = Inr \<lparr>fstate = Some 0\<rparr>
   \<and> (case run [Spawn nothing True, Worker_try 0, Worker_lock 0] initial of
        None \<Rightarrow> False
      | Some s \<Rightarrow> shared s = [Pending]
                \<and> fst (future_get \<lparr>fstate = Some 0\<rparr> s) = None
                \<and> future_wait \<lparr>fstate = Some 0\<rparr> s = None)
   \<and> (case run [Spawn nothing True, Worker_try 0, Worker_lock 0, Worker_return 0] initial of
        None \<Rightarrow> False
      | Some s \<Rightarrow> shared s = [Failed (Future_error Broken_promise)]
                \<and> shared s \<noteq> [Resolved_void]
                \<and> fst (future_get \<lparr>fstate = Some 0\<rparr> s)
                    = Some (Thrown (Future_error Broken_promise)))
   \<and> (case run [Task_new nothing True, Package_run 0] initial of
        None \<Rightarrow> False
      | Some s \<Rightarrow> shared s = [Resolved_void]
                \<and> fst (Task_get \<lparr>future = Some 0\<rparr> s) = Some Returned_void)"
  by (simp add: run_defs nothing_def future_get_def future_wait_def Task_get_def)

text \<open>
  C2. \<open>spawn\<close> when no thread can be started: the exception of the constructor of
  \<open>std::thread\<close> reaches the caller, but \<open>task_count\<close> was incremented before and is
  not restored. From the initial state the counter is 1 afterwards, with no unit that
  could decrement it, and \<open>wait_all\<close> blocks.
\<close>

theorem spawn_launch_failure_leaks_count:
  "spawn two_plus_two False initial = (Inl System_error, initial\<lparr>task_count := 1\<rparr>)
   \<and> task_count (snd (spawn two_plus_two False initial)) = 1
   \<and> task_count (initial :: (unit, int) system) = 0
   \<and> units (snd (spawn two_plus_two False initial)) = []
   \<and> wait_all (snd (spawn two_plus_two False initial)) = None"
  by (simp add: spawn_def initial_def Let_def wait_all_def)

text \<open>
  C5. The result of a spawned task, by result type. The task \<open>2 + 2\<close> ends with 4 in
  its shared state and \<open>get()\<close> returns 4. A task of result type \<open>void\<close> is called by
  its worker as well (when it throws, the exception is stored), but when it returns,
  nothing is recorded: after the worker has run to its end the shared state holds
  \<open>broken_promise\<close> and \<open>get()\<close> throws it instead of returning. The cause is the
  one of C1.
\<close>

theorem void_task_result_not_recorded:
  "(case run [Spawn two_plus_two True, Worker_try 0, Worker_lock 0, Worker_return 0] initial of
      None \<Rightarrow> False
    | Some s \<Rightarrow> shared s = [Resolved 4]
              \<and> fst (future_get \<lparr>fstate = Some 0\<rparr> s) = Some (Returned 4))
   \<and> (case run [Spawn void_boom True, Worker_try 0] initial of
        None \<Rightarrow> False
      | Some s \<Rightarrow> shared s = [Failed (Exn ''boom'')])
   \<and> (case run [Spawn nothing True, Worker_try 0] initial of
        None \<Rightarrow> False
      | Some s \<Rightarrow> units s = [Worker At_lock nothing] \<and> shared s = [Pending])
   \<and> (case run [Spawn nothing True, Worker_try 0, Worker_lock 0, Worker_return 0] initial of
        None \<Rightarrow> False
      | Some s \<Rightarrow> units s = [Worker Exited nothing]
                \<and> fst (future_get \<lparr>fstate = Some 0\<rparr> s)
                    = Some (Thrown (Future_error Broken_promise))
                \<and> fst (future_get \<lparr>fstate = Some 0\<rparr> s) \<noteq> Some Returned_void)"
  by (simp add: run_defs two_plus_two_def void_boom_def nothing_def future_get_def)

text \<open>
  C6. \<open>wait_all\<close> and a task that returns \<open>void\<close>: once the worker has decremented
  \<open>task_count\<close> to 0 and notified, \<open>wait_all\<close> returns, while the worker has not
  returned yet, the shared state of its handle is not ready and \<open>get()\<close> blocks.
  The cause is the one of C1.
\<close>

theorem wait_all_returns_before_void_result:
  "(case run [Spawn nothing True, Worker_try 0, Worker_lock 0] initial of
      None \<Rightarrow> False
    | Some s \<Rightarrow> task_count s = 0
              \<and> notified s = 1
              \<and> wait_all s = Some ()
              \<and> units s = [Worker At_return nothing]
              \<and> shared s ! 0 = Pending
              \<and> \<not> terminal (shared s ! 0)
              \<and> fst (future_get \<lparr>fstate = Some 0\<rparr> s) = None)"
  by (simp add: run_defs nothing_def future_get_def wait_all_def)

text \<open>
  C9. The counter after a failed launch: \<open>task_count\<close> is 1 although no task was
  registered to run and none is running; it stays 1 after a later task has been
  spawned and has finished, so \<open>wait_all\<close> blocks with no task outstanding.
  The cause is the one of C2.
\<close>

theorem count_after_failed_launch:
  "(case run [Spawn two_plus_two False] initial of
      None \<Rightarrow> False
    | Some s \<Rightarrow> task_count s = 1 \<and> units s = [] \<and> shared s = [] \<and> wait_all s = None)
   \<and> (case run [Spawn two_plus_two False, Spawn two_plus_two True,
                Worker_try 0, Worker_lock 0, Worker_return 0] initial of
        None \<Rightarrow> False
      | Some s \<Rightarrow> task_count s = 1
                \<and> units s = [Worker Exited two_plus_two]
                \<and> shared s = [Resolved 4]
                \<and> wait_all s = None)"
  by (simp add: run_defs two_plus_two_def wait_all_def)

end
